theory Spec2Isabelle
  imports Main "HOL-Library.Word"
begin

unbundle bit_operations_syntax

section \<open>Numbers\<close>

text \<open>
  The geometry of \<^verbatim>\<open>src/utility.js\<close> is pixel arithmetic on JavaScript numbers. The
  data model gives them as integers, so a number is an \<open>int\<close> here; \<open>+\<close>, \<open>-\<close>,
  \<open><\<close>, \<open>>\<close>, \<open>!==\<close> and \<open>Math.abs\<close> are the operations of \<open>int\<close>.
  JavaScript computes them exactly on integers of magnitude up to \<open>2 ^ 53\<close>.

  The bitwise operators \<open>&\<close> and \<open>|\<close> are different: JavaScript first converts
  both operands with ToInt32 (the value modulo \<open>2 ^ 32\<close>, read as a signed 32-bit
  integer), combines the two 32-bit patterns, and gives the result back as a signed
  32-bit integer.
\<close>

definition ToInt32 :: "int \<Rightarrow> 32 word" where
  "ToInt32 n = word_of_int n"

definition js_bitand :: "int \<Rightarrow> int \<Rightarrow> int" where
  "js_bitand a b = sint (ToInt32 a AND ToInt32 b)"

definition js_bitor :: "int \<Rightarrow> int \<Rightarrow> int" where
  "js_bitor a b = sint (ToInt32 a OR ToInt32 b)"

section \<open>Data model\<close>

text \<open>The \<open>Offsets\<close> object: top, left, right and bottom offsets in pixels.\<close>

record Offsets =
  top :: int
  left :: int
  right :: int
  bottom :: int

text \<open>The \<open>CSSCoordinates\<close> object handed to \<open>getViewportCollisions\<close>.\<close>

record CSSCoordinates =
  top :: int
  left :: int
  right :: int
  bottom :: int

text \<open>What jQuery's \<open>offset()\<close> and \<open>position()\<close> return.\<close>

record Position =
  top :: int
  left :: int

text \<open>What \<open>getBoundingClientRect()\<close> returns.\<close>

record ClientRect =
  left :: int
  top :: int
  right :: int
  bottom :: int

text \<open>
  The part of the shared \<open>session\<close> object that \<^verbatim>\<open>utility.js\<close> reads and writes.
  The object is created elsewhere and has more fields; the functions below are typed on
  the record scheme, so that they leave any further field alone.
\<close>

record session =
  mouseTrackingActive :: bool
  scrollLeft :: int
  scrollTop :: int
  windowWidth :: int
  windowHeight :: int
  positionCompensation :: Offsets
  currentX :: int
  currentY :: int

text \<open>
  The readings of the browser that the functions take at call time: the jQuery object
  \<open>$body\<close> (its CSS position, \<open>offset()\<close>, \<open>position()\<close>, \<open>outerWidth(true)\<close>,
  \<open>outerWidth()\<close>, \<open>outerHeight(true)\<close>, \<open>outerHeight()\<close>) and \<open>$window\<close>
  (\<open>scrollLeft()\<close>, \<open>scrollTop()\<close>, \<open>width()\<close>, \<open>height()\<close>).
\<close>

record body =
  css_position :: string
  body_offset :: Position
  body_position :: Position
  outerWidth_true :: int
  outerWidth :: int
  outerHeight_true :: int
  outerHeight :: int

record dom =
  window_scrollLeft :: int
  window_scrollTop :: int
  window_width :: int
  window_height :: int
  dom_body :: body

text \<open>A jQuery element, as \<open>isMouseOver\<close> reads it.\<close>

record element =
  offset :: Position
  getBoundingClientRect :: ClientRect

text \<open>The mousemove event, as \<open>trackMouse\<close> reads it.\<close>

record mouse_event =
  pageX :: int
  pageY :: int

text \<open>
  Modelled from the spec: the \<open>Collision\<close> flags object is declared outside
  \<^verbatim>\<open>utility.js\<close>; the data model gives it as none = 0, top = 1, bottom = 2,
  left = 4, right = 8.
\<close>

definition Collision_none :: int where "Collision_none = 0"
definition Collision_top :: int where "Collision_top = 1"
definition Collision_bottom :: int where "Collision_bottom = 2"
definition Collision_left :: int where "Collision_left = 4"
definition Collision_right :: int where "Collision_right = 8"

section \<open>Position compensation\<close>

text \<open>
  The parameters \<open>windowWidth\<close> and \<open>windowHeight\<close> of the source are
  \<open>winWidth\<close> and \<open>winHeight\<close> here, the first names being fields of the session.
  The object that \<open>$body.offset()\<close> returns gets its \<open>right\<close> and \<open>bottom\<close>
  assigned and is returned; the record is built with all four fields at once.
\<close>

definition computePositionCompensation :: "body \<Rightarrow> int \<Rightarrow> int \<Rightarrow> Offsets" where
  "computePositionCompensation b winWidth winHeight =
     (if css_position b = ''absolute'' \<or> css_position b = ''fixed''
         \<or> css_position b = ''relative''
      then
        (let offsets = body_offset b;
             bodyPositionPx = body_position b;
             bodyWidthWithMargin = outerWidth_true b;
             bodyHeightWithMargin = outerHeight_true b
         in \<lparr> Offsets.top = Position.top offsets,
              left = Position.left offsets,
              right = (bodyWidthWithMargin - outerWidth b
                         - (Position.left offsets - Position.left bodyPositionPx))
                      + (winWidth - bodyWidthWithMargin - Position.left bodyPositionPx),
              bottom = (bodyHeightWithMargin - outerHeight b - Position.top offsets)
                       + (winHeight - bodyHeightWithMargin - Position.top bodyPositionPx) \<rparr>)
      else \<lparr> Offsets.top = 0, left = 0, right = 0, bottom = 0 \<rparr>)"

section \<open>Viewport and mouse tracking\<close>

definition getViewportDimensions :: "dom \<Rightarrow> 'a session_scheme \<Rightarrow> 'a session_scheme" where
  "getViewportDimensions d s =
     (let s = s\<lparr>scrollLeft := window_scrollLeft d\<rparr>;
          s = s\<lparr>scrollTop := window_scrollTop d\<rparr>;
          s = s\<lparr>windowWidth := window_width d\<rparr>;
          s = s\<lparr>windowHeight := window_height d\<rparr>
      in s\<lparr>positionCompensation :=
             computePositionCompensation (dom_body d) (windowWidth s) (windowHeight s)\<rparr>)"

definition trackResize :: "dom \<Rightarrow> 'a session_scheme \<Rightarrow> 'a session_scheme" where
  "trackResize d s =
     (let s = s\<lparr>windowWidth := window_width d\<rparr>;
          s = s\<lparr>windowHeight := window_height d\<rparr>
      in s\<lparr>positionCompensation :=
             computePositionCompensation (dom_body d) (windowWidth s) (windowHeight s)\<rparr>)"

definition trackScroll :: "dom \<Rightarrow> 'a session_scheme \<Rightarrow> 'a session_scheme" where
  "trackScroll d s =
     (let x = window_scrollLeft d;
          y = window_scrollTop d;
          s = (if x \<noteq> scrollLeft s
               then s\<lparr>currentX := currentX s + (x - scrollLeft s), scrollLeft := x\<rparr>
               else s)
      in (if y \<noteq> scrollTop s
          then s\<lparr>currentY := currentY s + (y - scrollTop s), scrollTop := y\<rparr>
          else s))"

definition trackMouse :: "mouse_event \<Rightarrow> 'a session_scheme \<Rightarrow> 'a session_scheme" where
  "trackMouse event s = s\<lparr>currentX := pageX event, currentY := pageY event\<rparr>"

definition isMouseOver :: "'a session_scheme \<Rightarrow> element \<Rightarrow> bool" where
  "isMouseOver s el =
     (let elementPosition = offset el;
          elementBox = getBoundingClientRect el;
          elementWidth = ClientRect.right elementBox - ClientRect.left elementBox;
          elementHeight = ClientRect.bottom elementBox - ClientRect.top elementBox
      in currentX s \<ge> Position.left elementPosition \<and>
         currentX s \<le> Position.left elementPosition + elementWidth \<and>
         currentY s \<ge> Position.top elementPosition \<and>
         currentY s \<le> Position.top elementPosition + elementHeight)"

subsection \<open>Event registration\<close>

text \<open>
  \<open>initTracking\<close> registers handlers with jQuery. The page is the session together
  with jQuery's registry: the handlers bound with \<open>.on\<close>, in the order of binding,
  each with its target and event name, and the callbacks queued for DOM-ready with
  \<open>$(fn)\<close>. The namespace suffix \<open>EVENT_NAMESPACE\<close> is a constant declared outside
  \<^verbatim>\<open>utility.js\<close>; it is a parameter here.
\<close>

datatype handler = TrackMouse | TrackResize | TrackScroll | GetViewportDimensions

datatype target = Document | Window

record page =
  session :: session
  listeners :: "(target \<times> string \<times> handler) list"
  readyCallbacks :: "handler list"

definition on :: "target \<Rightarrow> string \<Rightarrow> handler \<Rightarrow> page \<Rightarrow> page" where
  "on t name h p = p\<lparr>listeners := listeners p @ [(t, name, h)]\<rparr>"

definition initTracking :: "string \<Rightarrow> dom \<Rightarrow> page \<Rightarrow> page" where
  "initTracking EVENT_NAMESPACE d p =
     (if \<not> mouseTrackingActive (session p) then
        (let p = p\<lparr>session := (session p)\<lparr>mouseTrackingActive := True\<rparr>\<rparr>;
             p = p\<lparr>session := getViewportDimensions d (session p)\<rparr>;
             p = p\<lparr>readyCallbacks := readyCallbacks p @ [GetViewportDimensions]\<rparr>;
             p = on Document (''mousemove'' @ EVENT_NAMESPACE) TrackMouse p;
             p = on Window (''resize'' @ EVENT_NAMESPACE) TrackResize p
         in on Window (''scroll'' @ EVENT_NAMESPACE) TrackScroll p)
      else p)"

text \<open>
  Delivering an event: jQuery calls every handler bound to the target under the event's
  name, in the order of binding. \<open>handlersFor\<close> is that list of handlers.
\<close>

fun runHandler :: "dom \<Rightarrow> mouse_event \<Rightarrow> handler \<Rightarrow> session \<Rightarrow> session" where
  "runHandler d ev TrackMouse s = trackMouse ev s"
| "runHandler d ev TrackResize s = trackResize d s"
| "runHandler d ev TrackScroll s = trackScroll d s"
| "runHandler d ev GetViewportDimensions s = getViewportDimensions d s"

definition handlersFor :: "target \<Rightarrow> string \<Rightarrow> page \<Rightarrow> handler list" where
  "handlersFor t name p =
     map (\<lambda>(t', name', h). h) (filter (\<lambda>(t', name', h). t' = t \<and> name' = name) (listeners p))"

definition trigger :: "target \<Rightarrow> string \<Rightarrow> dom \<Rightarrow> mouse_event \<Rightarrow> page \<Rightarrow> page" where
  "trigger t name d ev p =
     p\<lparr>session := fold (runHandler d ev) (handlersFor t name p) (session p)\<rparr>"

section \<open>Viewport collisions\<close>

definition getViewportCollisions :: "'a session_scheme \<Rightarrow> CSSCoordinates \<Rightarrow> int \<Rightarrow> int \<Rightarrow> int" where
  "getViewportCollisions s coords elementWidth elementHeight =
     (let viewportTop = scrollTop s - Offsets.top (positionCompensation s);
          viewportLeft = scrollLeft s - Offsets.left (positionCompensation s);
          viewportBottom = viewportTop + windowHeight s;
          viewportRight = viewportLeft + windowWidth s;
          collisions = Collision_none;
          collisions =
            (if CSSCoordinates.top coords < viewportTop
                \<or> \<bar>CSSCoordinates.bottom coords - windowHeight s\<bar> - elementHeight < viewportTop
             then js_bitor collisions Collision_top else collisions);
          collisions =
            (if CSSCoordinates.top coords + elementHeight > viewportBottom
                \<or> \<bar>CSSCoordinates.bottom coords - windowHeight s\<bar> > viewportBottom
             then js_bitor collisions Collision_bottom else collisions);
          collisions =
            (if CSSCoordinates.left coords < viewportLeft
                \<or> CSSCoordinates.right coords + elementWidth > viewportRight
             then js_bitor collisions Collision_left else collisions)
      in (if CSSCoordinates.left coords + elementWidth > viewportRight
             \<or> CSSCoordinates.right coords < viewportLeft
          then js_bitor collisions Collision_right else collisions))"

section \<open>Counting flags\<close>

text \<open>
  The body of the loop of \<open>countFlags\<close>, \<open>value &= value - 1\<close>, and the loop itself:
  it runs while the value is truthy, that is, not zero. The variable \<open>value\<close> of the
  source is \<open>val\<close> here.

  The subtraction \<open>value - 1\<close> is the exact one of \<open>int\<close>. JavaScript subtracts
  doubles, exactly for a value of magnitude up to \<open>2 ^ 53\<close> (at \<open>- 2 ^ 53\<close> the
  difference is rounded, but there the pattern of the value is zero and so is the
  result, whatever the other operand), and with rounding beyond: \<open>clearLowest\<close> is
  the body of the source's loop for \<open>\<bar>value\<bar> \<le> 2 ^ 53\<close>, and the results below are
  about the source's loop in that range only. After the first iteration the value is a
  signed 32-bit integer, so the range is left by no iteration.

  The recursion ends: while the 32-bit pattern of the value is not zero, an iteration
  makes it smaller as an unsigned number; and a value that is not zero with the pattern
  zero, a multiple of \<open>2 ^ 32\<close>, becomes zero in one iteration.
\<close>

definition clearLowest :: "int \<Rightarrow> int" where
  "clearLowest val = js_bitand val (val - 1)"

lemma ToInt32_clearLowest: "ToInt32 (clearLowest v) = ToInt32 v AND (ToInt32 v - 1)"
  by (simp add: clearLowest_def js_bitand_def ToInt32_def)

lemma word_and_pred_less:
  fixes w :: "32 word"
  assumes "w \<noteq> 0"
  shows "unat (w AND (w - 1)) < unat w"
proof -
  have "w AND (w - 1) \<le> w - 1"
    by (rule word_and_le1)
  moreover have "w - 1 < w"
    using assms by (simp add: word_less_nat_alt unat_minus_one unat_gt_0)
  ultimately show ?thesis
    by (simp add: word_less_nat_alt word_le_nat_alt)
qed

lemma clearLowest_zero_word: "ToInt32 v = 0 \<Longrightarrow> clearLowest v = 0"
  by (simp add: clearLowest_def js_bitand_def ToInt32_def)

function countFlags_loop :: "int \<Rightarrow> nat \<Rightarrow> nat" where
  "countFlags_loop val count =
     (if val \<noteq> 0 then countFlags_loop (clearLowest val) (count + 1) else count)"
  by pat_completeness auto
termination
proof (relation "measure (\<lambda>(v, c). if v = 0 then 0 else Suc (unat (ToInt32 v)))")
  show "wf (measure (\<lambda>(v, c). if v = 0 then 0 else Suc (unat (ToInt32 v))))"
    by simp
next
  fix val :: int and count :: nat
  assume nz: "val \<noteq> 0"
  show "((clearLowest val, count + 1), (val, count))
          \<in> measure (\<lambda>(v, c). if v = 0 then 0 else Suc (unat (ToInt32 v)))"
  proof (cases "ToInt32 val = 0")
    case True
    then show ?thesis using nz by (simp add: clearLowest_zero_word)
  next
    case False
    then have "unat (ToInt32 (clearLowest val)) < unat (ToInt32 val)"
      by (simp add: ToInt32_clearLowest word_and_pred_less)
    then show ?thesis using nz by simp
  qed
qed

declare countFlags_loop.simps [simp del]

definition countFlags :: "int \<Rightarrow> nat" where
  "countFlags val = countFlags_loop val 0"


section \<open>The specification's side\<close>

text \<open>
  The viewport edges and the four flag rules, written after the specification of the
  collision detector, to be compared with \<open>getViewportCollisions\<close>.
\<close>

definition spec_viewportTop :: "'a session_scheme \<Rightarrow> int" where
  "spec_viewportTop s = scrollTop s - Offsets.top (positionCompensation s)"

definition spec_viewportLeft :: "'a session_scheme \<Rightarrow> int" where
  "spec_viewportLeft s = scrollLeft s - Offsets.left (positionCompensation s)"

definition spec_viewportBottom :: "'a session_scheme \<Rightarrow> int" where
  "spec_viewportBottom s = spec_viewportTop s + windowHeight s"

definition spec_viewportRight :: "'a session_scheme \<Rightarrow> int" where
  "spec_viewportRight s = spec_viewportLeft s + windowWidth s"

definition spec_top_set :: "'a session_scheme \<Rightarrow> CSSCoordinates \<Rightarrow> int \<Rightarrow> bool" where
  "spec_top_set s coords elementHeight \<longleftrightarrow>
     CSSCoordinates.top coords < spec_viewportTop s
     \<or> \<bar>CSSCoordinates.bottom coords - windowHeight s\<bar> - elementHeight < spec_viewportTop s"

definition spec_bottom_set :: "'a session_scheme \<Rightarrow> CSSCoordinates \<Rightarrow> int \<Rightarrow> bool" where
  "spec_bottom_set s coords elementHeight \<longleftrightarrow>
     CSSCoordinates.top coords + elementHeight > spec_viewportBottom s
     \<or> \<bar>CSSCoordinates.bottom coords - windowHeight s\<bar> > spec_viewportBottom s"

definition spec_left_set :: "'a session_scheme \<Rightarrow> CSSCoordinates \<Rightarrow> int \<Rightarrow> bool" where
  "spec_left_set s coords elementWidth \<longleftrightarrow>
     CSSCoordinates.left coords < spec_viewportLeft s
     \<or> CSSCoordinates.right coords + elementWidth > spec_viewportRight s"

definition spec_right_set :: "'a session_scheme \<Rightarrow> CSSCoordinates \<Rightarrow> int \<Rightarrow> bool" where
  "spec_right_set s coords elementWidth \<longleftrightarrow>
     CSSCoordinates.left coords + elementWidth > spec_viewportRight s
     \<or> CSSCoordinates.right coords < spec_viewportLeft s"

text \<open>
  The bottom offset as the specification has it: the formula of the right offset, with
  heights for widths and the vertical offsets for the horizontal ones.
\<close>

definition spec_bottom_offset :: "body \<Rightarrow> int \<Rightarrow> int" where
  "spec_bottom_offset b winHeight =
     (outerHeight_true b - outerHeight b
        - (Position.top (body_offset b) - Position.top (body_position b)))
     + (winHeight - outerHeight_true b - Position.top (body_position b))"

text \<open>
  The number of set bits of a natural number, its lowest set bit as a power of two, and
  the number of set bits of the 32-bit pattern that the bitwise operators see.
\<close>

fun popcount :: "nat \<Rightarrow> nat" where
  "popcount n = (if n = 0 then 0 else n mod 2 + popcount (n div 2))"

declare popcount.simps [simp del]

fun lowestSetBit :: "nat \<Rightarrow> nat" where
  "lowestSetBit n = (if n = 0 then 0 else if odd n then 1 else 2 * lowestSetBit (n div 2))"

declare lowestSetBit.simps [simp del]

definition bits32 :: "int \<Rightarrow> nat" where
  "bits32 v = popcount (unat (ToInt32 v))"

section \<open>Concrete inputs\<close>

text \<open>A window of 1000 by 800 pixels, not scrolled, with no position compensation.\<close>

definition viewport_1000x800 :: session where
  "viewport_1000x800 =
     \<lparr> mouseTrackingActive = True, scrollLeft = 0, scrollTop = 0,
       windowWidth = 1000, windowHeight = 800,
       positionCompensation = \<lparr> Offsets.top = 0, left = 0, right = 0, bottom = 0 \<rparr>,
       currentX = 0, currentY = 0 \<rparr>"

definition box_10_10_890_780 :: CSSCoordinates where
  "box_10_10_890_780 = \<lparr> CSSCoordinates.top = 10, left = 10, right = 890, bottom = 780 \<rparr>"

text \<open>
  A body with \<open>position: relative; top: 20px\<close>, a margin of 10 pixels above and below
  and a height of 100 pixels: \<open>offset()\<close> gives the position plus the margin.
\<close>

definition relative_body :: body where
  "relative_body =
     \<lparr> css_position = ''relative'',
       body_offset = \<lparr> Position.top = 30, left = 0 \<rparr>,
       body_position = \<lparr> Position.top = 20, left = 0 \<rparr>,
       outerWidth_true = 1000, outerWidth = 1000,
       outerHeight_true = 120, outerHeight = 100 \<rparr>"

definition static_body :: body where
  "static_body =
     \<lparr> css_position = ''static'',
       body_offset = \<lparr> Position.top = 0, left = 0 \<rparr>,
       body_position = \<lparr> Position.top = 0, left = 0 \<rparr>,
       outerWidth_true = 1000, outerWidth = 1000,
       outerHeight_true = 2400, outerHeight = 2400 \<rparr>"

text \<open>The browser after the window has been scrolled down by 50 pixels.\<close>

definition scrolled_50 :: dom where
  "scrolled_50 =
     \<lparr> window_scrollLeft = 0, window_scrollTop = 50, window_width = 1000,
       window_height = 800, dom_body = static_body \<rparr>"

text \<open>The browser after the window has been resized to 640 by 480 pixels.\<close>

definition resized_640x480 :: dom where
  "resized_640x480 =
     \<lparr> window_scrollLeft = 0, window_scrollTop = 0, window_width = 640,
       window_height = 480, dom_body = relative_body \<rparr>"

text \<open>
  An element 80 pixels wide and 20 pixels high at the document offset (100, 200); its
  bounding rectangle is in viewport coordinates.
\<close>

definition button_el :: element where
  "button_el =
     \<lparr> offset = \<lparr> Position.top = 200, left = 100 \<rparr>,
       getBoundingClientRect = \<lparr> ClientRect.left = 100, top = 150, right = 180, bottom = 170 \<rparr> \<rparr>"

text \<open>A page on which \<open>initTracking\<close> has not run yet.\<close>

definition fresh_page :: page where
  "fresh_page =
     \<lparr> session = viewport_1000x800\<lparr>mouseTrackingActive := False, windowWidth := 0, windowHeight := 0\<rparr>,
       listeners = [], readyCallbacks = [] \<rparr>"

section \<open>Collision detection\<close>

lemmas spec_viewport_defs =
  spec_viewportTop_def spec_viewportLeft_def spec_viewportBottom_def spec_viewportRight_def
  spec_top_set_def spec_bottom_set_def spec_left_set_def spec_right_set_def

lemmas Collision_defs =
  Collision_none_def Collision_top_def Collision_bottom_def Collision_left_def Collision_right_def

text \<open>
  The four tests of \<open>getViewportCollisions\<close> are independent: the mask is the
  combination, with JavaScript's \<open>|\<close>, of one flag or none for each rule.
\<close>

lemma getViewportCollisions_flags:
  "getViewportCollisions s coords elementWidth elementHeight =
     js_bitor (js_bitor (js_bitor
       (if spec_top_set s coords elementHeight then Collision_top else Collision_none)
       (if spec_bottom_set s coords elementHeight then Collision_bottom else Collision_none))
       (if spec_left_set s coords elementWidth then Collision_left else Collision_none))
       (if spec_right_set s coords elementWidth then Collision_right else Collision_none)"
  unfolding getViewportCollisions_def Let_def spec_viewport_defs [symmetric]
  by (simp add: js_bitor_def ToInt32_def Collision_defs)

text \<open>
  C1: for every session state, every coordinate set and every element width and height,
  \<open>getViewportCollisions\<close> returns exactly the bitwise OR of the four flags, where top
  (1) is set iff \<open>coords.top < viewportTop\<close> or
  \<open>|coords.bottom - windowHeight| - elementHeight < viewportTop\<close>, bottom (2) iff
  \<open>coords.top + elementHeight > viewportBottom\<close> or
  \<open>|coords.bottom - windowHeight| > viewportBottom\<close>, left (4) iff
  \<open>coords.left < viewportLeft\<close> or \<open>coords.right + elementWidth > viewportRight\<close>,
  and right (8) iff \<open>coords.left + elementWidth > viewportRight\<close> or
  \<open>coords.right < viewportLeft\<close>.
\<close>

theorem getViewportCollisions_is_OR_of_flags:
  "getViewportCollisions s coords elementWidth elementHeight =
     (if spec_top_set s coords elementHeight then 1 else 0)
     OR (if spec_bottom_set s coords elementHeight then 2 else 0)
     OR (if spec_left_set s coords elementWidth then 4 else 0)
     OR (if spec_right_set s coords elementWidth then 8 else 0)"
  unfolding getViewportCollisions_flags
  by (simp add: js_bitor_def ToInt32_def Collision_defs)

text \<open>
  C2, as the specification states it: in the window of 1000 by 800 pixels with no scroll
  and no compensation, the box \<open>{top: 10, left: 10, right: 890, bottom: 780}\<close> of 100
  by 100 pixels yields the mask none. It does not: \<open>coords.bottom\<close> is a distance from
  the bottom edge of the window, so \<open>|780 - 800| - 100 = -80\<close> lies above the viewport
  top 0, and the second test of the top rule fires.
\<close>

theorem collision_example_not_none:
  "getViewportCollisions viewport_1000x800 box_10_10_890_780 100 100 \<noteq> Collision_none"
  by (simp add: getViewportCollisions_def viewport_1000x800_def box_10_10_890_780_def
      js_bitor_def ToInt32_def Collision_defs)

text \<open>
  C2, amended: with \<open>viewportTop = 0\<close> and \<open>viewportLeft = 0\<close>, the same call returns
  the mask top (1) and no other flag.
\<close>

theorem collision_example_top:
  "spec_viewportTop viewport_1000x800 = 0 \<and> spec_viewportLeft viewport_1000x800 = 0 \<and>
   getViewportCollisions viewport_1000x800 box_10_10_890_780 100 100 = Collision_top"
  by (simp add: getViewportCollisions_def viewport_1000x800_def box_10_10_890_780_def
      js_bitor_def ToInt32_def Collision_defs spec_viewport_defs)

text \<open>
  C8: for every session state and every input, the mask of \<open>getViewportCollisions\<close>
  lies in 0..15, has no bit set outside top = 1, bottom = 2, left = 4 and right = 8, and
  is none = 0 exactly when none of the four flag rules fires.
\<close>

theorem getViewportCollisions_mask:
  "0 \<le> getViewportCollisions s coords elementWidth elementHeight \<and>
   getViewportCollisions s coords elementWidth elementHeight \<le> 15 \<and>
   getViewportCollisions s coords elementWidth elementHeight
     AND (Collision_top OR Collision_bottom OR Collision_left OR Collision_right)
     = getViewportCollisions s coords elementWidth elementHeight \<and>
   (getViewportCollisions s coords elementWidth elementHeight = Collision_none) =
     (\<not> spec_top_set s coords elementHeight \<and> \<not> spec_bottom_set s coords elementHeight \<and>
      \<not> spec_left_set s coords elementWidth \<and> \<not> spec_right_set s coords elementWidth)"
  unfolding getViewportCollisions_flags
  by (simp add: js_bitor_def ToInt32_def Collision_defs)

section \<open>Position compensation of a positioned body\<close>

text \<open>
  For a body that is absolute, fixed or relative, the right offset is the formula of the
  specification. The bottom offset is not its mirror image: where the right offset
  subtracts the left margin \<open>offsets.left - bodyPositionPx.left\<close>, the bottom offset
  subtracts \<open>offsets.top\<close> whole, and so falls short of the symmetric formula by the
  body's position top.
\<close>

lemma computePositionCompensation_right:
  "css_position b = ''absolute'' \<or> css_position b = ''fixed'' \<or> css_position b = ''relative'' \<Longrightarrow>
   Offsets.right (computePositionCompensation b w h)
     = (outerWidth_true b - outerWidth b
        - (Position.left (body_offset b) - Position.left (body_position b)))
     + (w - outerWidth_true b - Position.left (body_position b))"
  by (auto simp add: computePositionCompensation_def Let_def)

lemma computePositionCompensation_bottom_gap:
  "css_position b = ''absolute'' \<or> css_position b = ''fixed'' \<or> css_position b = ''relative'' \<Longrightarrow>
   Offsets.bottom (computePositionCompensation b w h)
     = spec_bottom_offset b h - Position.top (body_position b)"
  by (auto simp add: computePositionCompensation_def spec_bottom_offset_def Let_def)

text \<open>
  C3: for a positioned body the bottom offset is the formula symmetric to the right
  offset. The code departs from it: for the relative body above in a window 800 pixels
  high, \<open>computePositionCompensation\<close> gives the bottom offset 650, the symmetric
  formula 670.
\<close>

theorem computePositionCompensation_bottom_asymmetric:
  "Offsets.bottom (computePositionCompensation relative_body 1000 800) = 650 \<and>
   spec_bottom_offset relative_body 800 = 670"
  by (simp add: computePositionCompensation_def relative_body_def spec_bottom_offset_def)

section \<open>Scrolling\<close>

text \<open>
  C4: \<open>trackScroll\<close> moves the cursor on exactly the axes whose scroll offset changed,
  by the difference between the offset read from the window and the cached one, and
  caches the offsets read; when \<open>scrollTop\<close> goes from 0 to 50 the cursor's y grows by
  exactly 50, and the cursor's x stays when \<open>scrollLeft\<close> did not change.
\<close>

theorem trackScroll_adjusts_cursor:
  "currentX (trackScroll d s) =
     (if window_scrollLeft d \<noteq> scrollLeft s
      then currentX s + (window_scrollLeft d - scrollLeft s) else currentX s) \<and>
   currentY (trackScroll d s) =
     (if window_scrollTop d \<noteq> scrollTop s
      then currentY s + (window_scrollTop d - scrollTop s) else currentY s) \<and>
   scrollLeft (trackScroll d s) = window_scrollLeft d \<and>
   scrollTop (trackScroll d s) = window_scrollTop d \<and>
   (scrollTop s = 0 \<and> window_scrollTop d = 50 \<longrightarrow>
      currentY (trackScroll d s) = currentY s + 50) \<and>
   (window_scrollLeft d = scrollLeft s \<longrightarrow> currentX (trackScroll d s) = currentX s)"
  by (simp add: trackScroll_def Let_def)

theorem trackScroll_adjusts_cursor_witness:
  "scrollTop (viewport_1000x800\<lparr>currentX := 120, currentY := 300\<rparr>) = 0 \<and>
   window_scrollTop scrolled_50 = 50 \<and>
   currentY (trackScroll scrolled_50 (viewport_1000x800\<lparr>currentX := 120, currentY := 300\<rparr>)) = 350 \<and>
   currentX (trackScroll scrolled_50 (viewport_1000x800\<lparr>currentX := 120, currentY := 300\<rparr>)) = 120"
  using trackScroll_adjusts_cursor
    [of scrolled_50 "viewport_1000x800\<lparr>currentX := 120, currentY := 300\<rparr>"]
  by (simp add: viewport_1000x800_def scrolled_50_def)


section \<open>Frames of the tracker updates\<close>

text \<open>
  C9: \<open>trackResize\<close> leaves \<open>scrollLeft\<close>, \<open>scrollTop\<close> and the cursor position
  as they are, and every field of the session other than \<open>windowWidth\<close>,
  \<open>windowHeight\<close> and \<open>positionCompensation\<close>; \<open>trackScroll\<close> leaves
  \<open>windowWidth\<close>, \<open>windowHeight\<close> and \<open>positionCompensation\<close> as they are, and
  every field other than the scroll offsets and the cursor; and on an axis whose scroll
  offset read from the window equals the cached one, \<open>trackScroll\<close> leaves the cursor
  and the cached offset as they are.
\<close>

theorem tracker_frames:
  "scrollLeft (trackResize d s) = scrollLeft s \<and>
   scrollTop (trackResize d s) = scrollTop s \<and>
   currentX (trackResize d s) = currentX s \<and>
   currentY (trackResize d s) = currentY s \<and>
   mouseTrackingActive (trackResize d s) = mouseTrackingActive s \<and>
   session.more (trackResize d s) = session.more s \<and>
   windowWidth (trackScroll d s) = windowWidth s \<and>
   windowHeight (trackScroll d s) = windowHeight s \<and>
   positionCompensation (trackScroll d s) = positionCompensation s \<and>
   mouseTrackingActive (trackScroll d s) = mouseTrackingActive s \<and>
   session.more (trackScroll d s) = session.more s \<and>
   (window_scrollLeft d = scrollLeft s \<longrightarrow>
      currentX (trackScroll d s) = currentX s \<and> scrollLeft (trackScroll d s) = scrollLeft s) \<and>
   (window_scrollTop d = scrollTop s \<longrightarrow>
      currentY (trackScroll d s) = currentY s \<and> scrollTop (trackScroll d s) = scrollTop s)"
  by (simp add: trackResize_def trackScroll_def Let_def)

theorem tracker_frames_witness:
  "window_scrollLeft scrolled_50 = scrollLeft (viewport_1000x800\<lparr>currentX := 7, currentY := 9\<rparr>) \<and>
   trackScroll scrolled_50 (viewport_1000x800\<lparr>currentX := 7, currentY := 9\<rparr>)
     = viewport_1000x800\<lparr>currentX := 7, currentY := 59, scrollTop := 50\<rparr> \<and>
   trackResize resized_640x480 (viewport_1000x800\<lparr>currentX := 7, currentY := 9\<rparr>)
     = viewport_1000x800\<lparr>currentX := 7, currentY := 9, windowWidth := 640, windowHeight := 480,
         positionCompensation := \<lparr> Offsets.top = 30, left = 0, right = -360, bottom = 330 \<rparr>\<rparr>"
  using tracker_frames [of scrolled_50 "viewport_1000x800\<lparr>currentX := 7, currentY := 9\<rparr>"]
    tracker_frames [of resized_640x480 "viewport_1000x800\<lparr>currentX := 7, currentY := 9\<rparr>"]
  by (simp add: viewport_1000x800_def scrolled_50_def resized_640x480_def relative_body_def
      trackResize_def trackScroll_def computePositionCompensation_def)

section \<open>Hover test\<close>

text \<open>
  C5: \<open>isMouseOver\<close> is true if and only if the cached cursor lies in
  \<open>[left, left + width]\<close> horizontally and in \<open>[top, top + height]\<close> vertically,
  all four bounds included, where (left, top) is the element's document offset and width
  and height are those of its bounding rectangle; so a cursor whose x is exactly the
  offset's left, with y in the vertical range, is over the element (a bounding
  rectangle has its right edge at or after its left edge).
\<close>

theorem isMouseOver_inclusive:
  "isMouseOver s el =
     (Position.left (offset el) \<le> currentX s \<and>
      currentX s \<le> Position.left (offset el)
        + (ClientRect.right (getBoundingClientRect el) - ClientRect.left (getBoundingClientRect el)) \<and>
      Position.top (offset el) \<le> currentY s \<and>
      currentY s \<le> Position.top (offset el)
        + (ClientRect.bottom (getBoundingClientRect el) - ClientRect.top (getBoundingClientRect el))) \<and>
   (ClientRect.left (getBoundingClientRect el) \<le> ClientRect.right (getBoundingClientRect el) \<and>
    currentX s = Position.left (offset el) \<and>
    Position.top (offset el) \<le> currentY s \<and>
    currentY s \<le> Position.top (offset el)
      + (ClientRect.bottom (getBoundingClientRect el) - ClientRect.top (getBoundingClientRect el))
    \<longrightarrow> isMouseOver s el)"
  by (simp add: isMouseOver_def Let_def)

theorem isMouseOver_inclusive_witness:
  "currentX (viewport_1000x800\<lparr>currentX := 100, currentY := 220\<rparr>) = Position.left (offset button_el) \<and>
   isMouseOver (viewport_1000x800\<lparr>currentX := 100, currentY := 220\<rparr>) button_el \<and>
   isMouseOver (viewport_1000x800\<lparr>currentX := 180, currentY := 200\<rparr>) button_el \<and>
   \<not> isMouseOver (viewport_1000x800\<lparr>currentX := 181, currentY := 200\<rparr>) button_el \<and>
   \<not> isMouseOver (viewport_1000x800\<lparr>currentX := 99, currentY := 200\<rparr>) button_el"
  using isMouseOver_inclusive [of "viewport_1000x800\<lparr>currentX := 100, currentY := 220\<rparr>" button_el]
    isMouseOver_inclusive [of "viewport_1000x800\<lparr>currentX := 180, currentY := 200\<rparr>" button_el]
    isMouseOver_inclusive [of "viewport_1000x800\<lparr>currentX := 181, currentY := 200\<rparr>" button_el]
    isMouseOver_inclusive [of "viewport_1000x800\<lparr>currentX := 99, currentY := 200\<rparr>" button_el]
  by (simp add: viewport_1000x800_def button_el_def)

section \<open>Starting the tracking\<close>

text \<open>
  After \<open>initTracking\<close> the flag is set, whatever the page was; with the flag set,
  \<open>initTracking\<close> changes nothing; on a page whose flag is not set, it binds the three
  handlers after those already bound.
\<close>

lemma initTracking_active: "mouseTrackingActive (session (initTracking ns d p))"
  by (simp add: initTracking_def on_def Let_def getViewportDimensions_def)

lemma initTracking_noop: "mouseTrackingActive (session p) \<Longrightarrow> initTracking ns d p = p"
  by (simp add: initTracking_def)

lemma initTracking_listeners:
  "\<not> mouseTrackingActive (session p) \<Longrightarrow>
   listeners (initTracking ns d p) = listeners p @
     [(Document, ''mousemove'' @ ns, TrackMouse), (Window, ''resize'' @ ns, TrackResize),
      (Window, ''scroll'' @ ns, TrackScroll)]"
  by (simp add: initTracking_def on_def Let_def)

text \<open>
  C7: \<open>initTracking\<close> is idempotent. From any page, and whatever the browser reads at
  the second call, running it twice gives the page that running it once gives: the
  same session, the same bound handlers, the same DOM-ready queue. On a page where
  tracking had not started and nothing was bound, after the second call each of the
  events mousemove, resize and scroll has exactly one handler, and delivering the event
  runs that handler once on the session.
\<close>

theorem initTracking_idempotent:
  "initTracking ns d' (initTracking ns d p) = initTracking ns d p \<and>
   (\<not> mouseTrackingActive (session p) \<and> listeners p = [] \<longrightarrow>
      listeners (initTracking ns d' (initTracking ns d p)) =
        [(Document, ''mousemove'' @ ns, TrackMouse), (Window, ''resize'' @ ns, TrackResize),
         (Window, ''scroll'' @ ns, TrackScroll)] \<and>
      handlersFor Document (''mousemove'' @ ns) (initTracking ns d' (initTracking ns d p)) = [TrackMouse] \<and>
      handlersFor Window (''resize'' @ ns) (initTracking ns d' (initTracking ns d p)) = [TrackResize] \<and>
      handlersFor Window (''scroll'' @ ns) (initTracking ns d' (initTracking ns d p)) = [TrackScroll] \<and>
      session (trigger Document (''mousemove'' @ ns) e ev (initTracking ns d' (initTracking ns d p)))
        = trackMouse ev (session (initTracking ns d p)) \<and>
      session (trigger Window (''resize'' @ ns) e ev (initTracking ns d' (initTracking ns d p)))
        = trackResize e (session (initTracking ns d p)) \<and>
      session (trigger Window (''scroll'' @ ns) e ev (initTracking ns d' (initTracking ns d p)))
        = trackScroll e (session (initTracking ns d p)))"
proof -
  have twice: "initTracking ns d' (initTracking ns d p) = initTracking ns d p"
    by (rule initTracking_noop) (rule initTracking_active)
  show ?thesis
    unfolding twice
    by (auto simp add: initTracking_listeners handlersFor_def trigger_def)
qed

theorem initTracking_idempotent_witness:
  "\<not> mouseTrackingActive (session fresh_page) \<and> listeners fresh_page = [] \<and>
   initTracking ''.powertip'' scrolled_50 (initTracking ''.powertip'' resized_640x480 fresh_page)
     = initTracking ''.powertip'' resized_640x480 fresh_page \<and>
   listeners (initTracking ''.powertip'' scrolled_50 (initTracking ''.powertip'' resized_640x480 fresh_page))
     = [(Document, ''mousemove.powertip'', TrackMouse), (Window, ''resize.powertip'', TrackResize),
        (Window, ''scroll.powertip'', TrackScroll)] \<and>
   handlersFor Window ''scroll.powertip''
     (initTracking ''.powertip'' scrolled_50 (initTracking ''.powertip'' resized_640x480 fresh_page))
     = [TrackScroll]"
proof -
  have fresh: "\<not> mouseTrackingActive (session fresh_page) \<and> listeners fresh_page = []"
    by (simp add: fresh_page_def)
  with initTracking_idempotent
    [of "''.powertip''" scrolled_50 resized_640x480 fresh_page scrolled_50 "\<lparr>pageX = 5, pageY = 6\<rparr>"]
  show ?thesis by auto
qed


section \<open>The loop of countFlags\<close>

subsection \<open>Set bits of natural numbers\<close>

lemma popcount_0 [simp]: "popcount 0 = 0"
  by (simp add: popcount.simps)

lemma popcount_double [simp]: "popcount (2 * m) = popcount m"
  by (subst popcount.simps) simp

lemma popcount_double_Suc [simp]: "popcount (Suc (2 * m)) = Suc (popcount m)"
  by (subst popcount.simps) simp

lemma and_pred_even: "0 < m \<Longrightarrow> (2 * m) AND (2 * m - 1) = 2 * (m AND (m - 1))" for m :: nat
proof -
  assume "0 < m"
  then have "(2 * m - 1) div 2 = m - 1" by presburger
  then show ?thesis
    by (subst and_nat_rec) simp
qed

lemma and_pred_odd: "Suc (2 * m) AND (Suc (2 * m) - 1) = 2 * m" for m :: nat
  by (subst and_nat_rec) simp

lemma popcount_and_pred: "0 < n \<Longrightarrow> Suc (popcount (n AND (n - 1))) = popcount n"
proof (induction n rule: less_induct)
  case (less n)
  show ?case
  proof (cases "even n")
    case True
    then obtain m where n: "n = 2 * m" by (auto elim: evenE)
    with less.prems have m: "0 < m" by simp
    have "Suc (popcount (m AND (m - 1))) = popcount m"
      using less.IH [of m] m n by simp
    then show ?thesis
      unfolding n using and_pred_even [OF m] by simp
  next
    case False
    then obtain m where n: "n = Suc (2 * m)" by (auto elim: oddE)
    show ?thesis
      unfolding n and_pred_odd by simp
  qed
qed

lemma lowestSetBit_0 [simp]: "lowestSetBit 0 = 0"
  by (simp add: lowestSetBit.simps)

lemma lowestSetBit_double [simp]: "lowestSetBit (2 * m) = 2 * lowestSetBit m"
  by (subst lowestSetBit.simps) simp

lemma lowestSetBit_double_Suc [simp]: "lowestSetBit (Suc (2 * m)) = 1"
  by (subst lowestSetBit.simps) simp

lemma and_pred_lowestSetBit:
  "0 < n \<Longrightarrow> lowestSetBit n \<le> n \<and> n AND (n - 1) = n - lowestSetBit n"
proof (induction n rule: less_induct)
  case (less n)
  show ?case
  proof (cases "even n")
    case True
    then obtain m where n: "n = 2 * m" by (auto elim: evenE)
    with less.prems have m: "0 < m" by simp
    have "lowestSetBit m \<le> m \<and> m AND (m - 1) = m - lowestSetBit m"
      using less.IH [of m] m n by simp
    then show ?thesis
      unfolding n using and_pred_even [OF m] by simp
  next
    case False
    then obtain m where n: "n = Suc (2 * m)" by (auto elim: oddE)
    show ?thesis
      unfolding n and_pred_odd by simp
  qed
qed

subsection \<open>The loop, one iteration at a time\<close>

text \<open>
  The loop variable alone decides how the loop goes on, so properties of the loop are
  shown by induction along \<open>clearLowest\<close>. The counter grows by one in each iteration.
\<close>

lemma clearLowest_induct [case_names step]:
  assumes "\<And>v. (v \<noteq> 0 \<Longrightarrow> Q (clearLowest v)) \<Longrightarrow> Q v"
  shows "Q a"
  using countFlags_loop.induct [of "\<lambda>v c. Q v" a 0] assms by blast

lemma countFlags_loop_add: "countFlags_loop v c = c + countFlags_loop v 0"
proof (induction v arbitrary: c rule: clearLowest_induct)
  case (step v)
  show ?case
  proof (cases "v = 0")
    case True
    then show ?thesis by (simp add: countFlags_loop.simps)
  next
    case False
    have "countFlags_loop v c = countFlags_loop (clearLowest v) (c + 1)"
      using False by (subst countFlags_loop.simps) simp
    also have "\<dots> = (c + 1) + countFlags_loop (clearLowest v) 0"
      using step [OF False] .
    also have "\<dots> = c + countFlags_loop (clearLowest v) (0 + 1)"
      using step [OF False, of "0 + 1"] by simp
    also have "\<dots> = c + countFlags_loop v 0"
      using False by (subst (2) countFlags_loop.simps) simp
    finally show ?thesis .
  qed
qed

lemma countFlags_rec:
  "countFlags v = (if v \<noteq> 0 then Suc (countFlags (clearLowest v)) else 0)"
  unfolding countFlags_def
  by (subst countFlags_loop.simps) (use countFlags_loop_add [of "clearLowest v" 1] in simp)

lemma countFlags_iterations:
  "(clearLowest ^^ countFlags v) v = 0 \<and> (\<forall>k<countFlags v. (clearLowest ^^ k) v \<noteq> 0)"
proof (induction v rule: clearLowest_induct)
  case (step v)
  show ?case
  proof (cases "v = 0")
    case True
    then show ?thesis by (simp add: countFlags_rec)
  next
    case False
    let ?n = "countFlags (clearLowest v)"
    have n: "countFlags v = Suc ?n"
      using False by (subst countFlags_rec) simp
    from step [OF False]
    have a: "(clearLowest ^^ ?n) (clearLowest v) = 0"
      and b: "\<forall>k<?n. (clearLowest ^^ k) (clearLowest v) \<noteq> 0"
      by auto
    have "(clearLowest ^^ Suc ?n) v = 0"
      using a by (simp add: funpow_swap1)
    moreover have "(clearLowest ^^ k) v \<noteq> 0" if "k < Suc ?n" for k
    proof (cases k)
      case 0
      then show ?thesis using False by simp
    next
      case (Suc j)
      with that b show ?thesis by (simp add: funpow_swap1)
    qed
    ultimately show ?thesis unfolding n by blast
  qed
qed

subsection \<open>One iteration on the 32-bit pattern\<close>

text \<open>
  On a pattern that is not zero, \<open>value & (value - 1)\<close> removes one set bit. A loop
  variable that is not zero has a pattern that is not zero, unless it is a multiple of
  \<open>2 ^ 32\<close>; after the first iteration it is a signed 32-bit integer, and never such
  a multiple.
\<close>

lemma unat_and_pred:
  fixes w :: "32 word"
  shows "w \<noteq> 0 \<Longrightarrow> unat (w AND (w - 1)) = unat w AND (unat w - 1)"
  by (simp add: unsigned_and_eq unat_minus_one)

lemma bits32_clearLowest: "ToInt32 v \<noteq> 0 \<Longrightarrow> Suc (bits32 (clearLowest v)) = bits32 v"
proof -
  assume w: "ToInt32 v \<noteq> 0"
  then have "0 < unat (ToInt32 v)"
    by (simp add: unat_gt_0)
  then have "Suc (popcount (unat (ToInt32 v) AND (unat (ToInt32 v) - 1))) = popcount (unat (ToInt32 v))"
    by (rule popcount_and_pred)
  then show ?thesis
    unfolding bits32_def ToInt32_clearLowest unat_and_pred [OF w] .
qed

lemma clearLowest_inv: "clearLowest v = 0 \<or> ToInt32 (clearLowest v) \<noteq> 0"
  by (auto simp add: clearLowest_def js_bitand_def ToInt32_def)

lemma countFlags_bits32: "v = 0 \<or> ToInt32 v \<noteq> 0 \<Longrightarrow> countFlags v = bits32 v"
proof (induction v rule: clearLowest_induct)
  case (step v)
  show ?case
  proof (cases "v = 0")
    case True
    then show ?thesis by (simp add: countFlags_rec bits32_def ToInt32_def)
  next
    case False
    with step.prems have w: "ToInt32 v \<noteq> 0" by simp
    have "countFlags v = Suc (countFlags (clearLowest v))"
      using False by (subst countFlags_rec) simp
    also have "\<dots> = Suc (bits32 (clearLowest v))"
      using step.IH [OF False clearLowest_inv] by simp
    also have "\<dots> = bits32 v"
      using w by (rule bits32_clearLowest)
    finally show ?thesis .
  qed
qed

lemma unat_ToInt32: "0 \<le> v \<Longrightarrow> v < 2 ^ 32 \<Longrightarrow> unat (ToInt32 v) = nat v"
  by (simp add: ToInt32_def unat_eq_nat_uint uint_word_of_int take_bit_eq_mod)

lemma bits32_nat: "0 \<le> v \<Longrightarrow> v < 2 ^ 32 \<Longrightarrow> bits32 v = popcount (nat v)"
  by (simp add: bits32_def unat_ToInt32)

lemma ToInt32_nonzero: "0 < v \<Longrightarrow> v < 2 ^ 32 \<Longrightarrow> ToInt32 v \<noteq> 0"
  using unat_ToInt32 [of v] by (auto simp add: unat_eq_0 [symmetric] simp del: unat_eq_0)

lemma clearLowest_nonneg:
  assumes "0 \<le> v" and "v < 2 ^ 31"
  shows "clearLowest v = int (nat v AND (nat v - 1))"
proof (cases "v = 0")
  case True
  then show ?thesis
    by (simp add: clearLowest_def js_bitand_def ToInt32_def)
next
  case False
  with assms have w: "ToInt32 v \<noteq> 0"
    by (intro ToInt32_nonzero) simp_all
  have u: "unat (ToInt32 v) = nat v"
    using assms by (intro unat_ToInt32) simp_all
  let ?x = "ToInt32 v AND (ToInt32 v - 1)"
  have x: "unat ?x = nat v AND (nat v - 1)"
    using unat_and_pred [OF w] u by simp
  have "nat v AND (nat v - 1) \<le> nat v"
    using and_pred_lowestSetBit [of "nat v"] False assms by simp
  moreover have "nat v < 2147483648"
    using assms by simp
  ultimately have "unat ?x < 2147483648"
    unfolding x by (rule le_less_trans)
  then have small: "int (unat ?x) < 2147483648"
    by linarith
  have ux: "uint ?x = int (unat ?x)"
    by (rule uint_nat)
  have p: "(2::int) ^ 31 = 2147483648"
    by simp
  have "uint ?x < 2 ^ 31"
    unfolding ux p by (fact small)
  moreover have "- (2 ^ 31) \<le> uint ?x"
    unfolding ux p by linarith
  ultimately have "signed_take_bit 31 (uint ?x) = uint ?x"
    by (intro signed_take_bit_int_eq_self)
  moreover have "sint ?x = signed_take_bit 31 (uint ?x)"
    by (simp add: sint_uint)
  ultimately have "sint ?x = int (nat v AND (nat v - 1))"
    unfolding ux x by (rule trans [rotated])
  moreover have "ToInt32 (v - 1) = ToInt32 v - 1"
    by (simp add: ToInt32_def)
  ultimately show ?thesis
    unfolding clearLowest_def js_bitand_def by simp
qed


lemma clearLowest_iterate_inv:
  "v = 0 \<or> ToInt32 v \<noteq> 0 \<Longrightarrow>
   (clearLowest ^^ k) v = 0 \<or> ToInt32 ((clearLowest ^^ k) v) \<noteq> 0"
  by (cases k) (simp_all add: clearLowest_inv)

text \<open>
  The result of \<open>&\<close> is a signed 32-bit integer, so an iteration never leaves the
  range in which the subtraction is exact.
\<close>

lemma clearLowest_int32: "- (2 ^ 31) \<le> clearLowest v \<and> clearLowest v < 2 ^ 31"
proof -
  let ?x = "ToInt32 v AND ToInt32 (v - 1)"
  have "- (2 ^ (LENGTH(32) - 1)) \<le> sint ?x"
    by (rule sint_ge)
  moreover have "sint ?x < 2 ^ (LENGTH(32) - 1)"
    by (rule sint_lt)
  ultimately show ?thesis
    by (simp add: clearLowest_def js_bitand_def)
qed

lemma clearLowest_iterate_exact:
  "\<bar>v\<bar> \<le> 2 ^ 53 \<Longrightarrow> \<bar>(clearLowest ^^ k) v\<bar> \<le> 2 ^ 53"
proof (cases k)
  case 0
  assume "\<bar>v\<bar> \<le> 2 ^ 53"
  with 0 show ?thesis by simp
next
  case (Suc j)
  have "- (2 ^ 31) \<le> clearLowest ((clearLowest ^^ j) v) \<and> clearLowest ((clearLowest ^^ j) v) < 2 ^ 31"
    by (rule clearLowest_int32)
  then have "\<bar>clearLowest ((clearLowest ^^ j) v)\<bar> \<le> 2 ^ 53"
    by (simp add: abs_le_iff)
  with Suc show ?thesis by simp
qed

subsection \<open>Flag values\<close>

text \<open>
  C6: for every integer from 0 to 15, \<open>countFlags\<close> is the number of set bits
  (\<open>countFlags(0) = 0\<close>, \<open>countFlags(5) = 2\<close>, \<open>countFlags(15) = 4\<close>): each
  iteration \<open>value &= value - 1\<close> clears the lowest set bit, and the result is the
  number of iterations after which the value is zero for the first time.
\<close>

theorem countFlags_small_masks:
  "0 \<le> v \<and> v \<le> 15 \<longrightarrow>
     countFlags v = popcount (nat v) \<and>
     (v \<noteq> 0 \<longrightarrow> clearLowest v = v - int (lowestSetBit (nat v))) \<and>
     (clearLowest ^^ countFlags v) v = 0 \<and>
     (\<forall>k<countFlags v. (clearLowest ^^ k) v \<noteq> 0)"
proof (intro impI, elim conjE)
  assume lo: "0 \<le> v" and hi: "v \<le> 15"
  have inv: "v = 0 \<or> ToInt32 v \<noteq> 0"
    using lo hi ToInt32_nonzero [of v] by auto
  have "countFlags v = bits32 v"
    using inv by (rule countFlags_bits32)
  also have "\<dots> = popcount (nat v)"
    using lo hi by (intro bits32_nat) simp_all
  finally have count: "countFlags v = popcount (nat v)" .
  have low: "clearLowest v = v - int (lowestSetBit (nat v))" if "v \<noteq> 0"
  proof -
    have "clearLowest v = int (nat v AND (nat v - 1))"
      using lo hi by (intro clearLowest_nonneg) simp_all
    moreover have "lowestSetBit (nat v) \<le> nat v \<and> nat v AND (nat v - 1) = nat v - lowestSetBit (nat v)"
      using that lo by (intro and_pred_lowestSetBit) simp
    ultimately show ?thesis using lo by simp
  qed
  from count low countFlags_iterations [of v]
  show "countFlags v = popcount (nat v) \<and>
     (v \<noteq> 0 \<longrightarrow> clearLowest v = v - int (lowestSetBit (nat v))) \<and>
     (clearLowest ^^ countFlags v) v = 0 \<and>
     (\<forall>k<countFlags v. (clearLowest ^^ k) v \<noteq> 0)"
    by blast
qed

theorem countFlags_small_masks_witness:
  "(0::int) \<le> 5 \<and> (5::int) \<le> 15 \<and>
   countFlags 0 = 0 \<and> countFlags 5 = 2 \<and> countFlags 15 = 4 \<and>
   popcount (nat 0) = 0 \<and> popcount (nat 5) = 2 \<and> popcount (nat 15) = 4 \<and>
   lowestSetBit (nat 5) = 1 \<and> clearLowest 5 = 4 \<and> clearLowest 4 = 0"
proof -
  have pc: "popcount (nat 0) = 0" "popcount (nat 5) = 2" "popcount (nat 15) = 4"
    by (simp_all add: popcount.simps)
  have cl: "clearLowest 5 = 4" "clearLowest 4 = 0"
    by (simp_all add: clearLowest_def js_bitand_def ToInt32_def)
  have lsb: "lowestSetBit (nat 5) = 1"
    by (simp add: lowestSetBit.simps)
  from countFlags_small_masks [of 0] countFlags_small_masks [of 5] countFlags_small_masks [of 15]
    pc cl lsb
  show ?thesis by simp
qed

subsection \<open>Beyond 32 bits\<close>

text \<open>
  C10, as stated: for every nonnegative integer input the loop runs exactly
  \<open>popcount(value)\<close> times and returns that count. The bitwise \<open>&\<close> sees only the
  low 32 bits of its operands: for \<open>2 ^ 32 + 1\<close>, with two set bits, the first
  iteration computes \<open>1 & 0 = 0\<close> and \<open>countFlags\<close> returns 1.
\<close>

theorem countFlags_not_popcount_above_2_32:
  "(0::int) \<le> 4294967297 \<and> countFlags 4294967297 = 1 \<and> popcount (nat 4294967297) = 2"
  by (simp add: countFlags_def countFlags_loop.simps clearLowest_def js_bitand_def ToInt32_def
      popcount.simps)

text \<open>
  C10, amended: for every integer input of magnitude at most \<open>2 ^ 53\<close>,
  \<open>countFlags\<close> terminates, after exactly as many iterations as it returns; for every
  nonnegative input below \<open>2 ^ 32\<close>, each iteration strictly decreases the number of
  set bits of the value's 32-bit pattern, and the loop runs exactly \<open>popcount(value)\<close>
  times and returns that count.
\<close>

theorem countFlags_popcount_below_2_32:
  "(\<bar>v\<bar> \<le> 2 ^ 53 \<longrightarrow>
      (clearLowest ^^ countFlags v) v = 0 \<and>
      (\<forall>k<countFlags v. (clearLowest ^^ k) v \<noteq> 0 \<and> \<bar>(clearLowest ^^ k) v\<bar> \<le> 2 ^ 53)) \<and>
   (0 \<le> v \<and> v < 2 ^ 32 \<longrightarrow>
      countFlags v = popcount (nat v) \<and>
      (\<forall>k<popcount (nat v).
         bits32 ((clearLowest ^^ Suc k) v) < bits32 ((clearLowest ^^ k) v)))"
proof -
  have popc: "countFlags v = popcount (nat v) \<and>
      (\<forall>k<popcount (nat v).
         bits32 ((clearLowest ^^ Suc k) v) < bits32 ((clearLowest ^^ k) v))"
    if lo: "0 \<le> v" and hi: "v < 2 ^ 32"
  proof -
    have inv: "v = 0 \<or> ToInt32 v \<noteq> 0"
      using lo hi ToInt32_nonzero [of v] by auto
    have "countFlags v = bits32 v"
      using inv by (rule countFlags_bits32)
    also have "\<dots> = popcount (nat v)"
      using lo hi by (rule bits32_nat)
    finally have count: "countFlags v = popcount (nat v)" .
    have "bits32 ((clearLowest ^^ Suc k) v) < bits32 ((clearLowest ^^ k) v)"
      if "k < popcount (nat v)" for k
    proof -
      from that count countFlags_iterations [of v]
      have "(clearLowest ^^ k) v \<noteq> 0" by simp
      with clearLowest_iterate_inv [OF inv, of k]
      have "ToInt32 ((clearLowest ^^ k) v) \<noteq> 0" by simp
      then have "Suc (bits32 (clearLowest ((clearLowest ^^ k) v))) = bits32 ((clearLowest ^^ k) v)"
        by (rule bits32_clearLowest)
      then show ?thesis by simp
    qed
    with count show ?thesis by blast
  qed
  have range: "\<bar>(clearLowest ^^ k) v\<bar> \<le> 2 ^ 53" if "\<bar>v\<bar> \<le> 2 ^ 53" for k
    using that by (rule clearLowest_iterate_exact)
  from popc range countFlags_iterations [of v] show ?thesis by blast
qed

theorem countFlags_popcount_below_2_32_witness:
  "\<bar>2147483649 :: int\<bar> \<le> 2 ^ 53 \<and>
   (0::int) \<le> 2147483649 \<and> (2147483649::int) < 2 ^ 32 \<and>
   countFlags 2147483649 = 2 \<and> popcount (nat 2147483649) = 2 \<and>
   clearLowest 2147483649 = - 2147483648 \<and> clearLowest (- 2147483648) = 0 \<and>
   (clearLowest ^^ 2) 2147483649 = 0"
proof -
  have pc: "popcount (nat 2147483649) = 2"
    by (simp add: popcount.simps)
  have cl: "clearLowest 2147483649 = - 2147483648" "clearLowest (- 2147483648) = 0"
    by (simp_all add: clearLowest_def js_bitand_def ToInt32_def)
  have range: "\<bar>2147483649 :: int\<bar> \<le> 2 ^ 53" "(0::int) \<le> 2147483649"
      "(2147483649::int) < 2 ^ 32"
    by simp_all
  from countFlags_popcount_below_2_32 [of 2147483649] range
  have "countFlags 2147483649 = popcount (nat 2147483649)"
    and "(clearLowest ^^ countFlags 2147483649) 2147483649 = 0"
    by blast+
  with pc cl range show ?thesis by simp
qed

end
